theory Spec2Isabelle
  imports Main "HOL-Library.Word"
begin

section \<open>Secure file upload server (server/python-flask/app.py)\<close>

text \<open>
  A shallow embedding of the validation pipeline of \<^verbatim>\<open>app.py\<close>.

  Conventions.
  \<^item> A Python \<^verbatim>\<open>str\<close> is a \<open>string\<close>; one HOL character stands for one code point
    below 256 (ASCII and Latin-1). Code points above 255 are outside the model.
  \<^item> File contents (\<^verbatim>\<open>bytes\<close>) are lists of 8-bit words.
  \<^item> The platform is POSIX: \<^verbatim>\<open>os.sep\<close> is \<open>/\<close>, \<^verbatim>\<open>os.path.altsep\<close> is
    \<^verbatim>\<open>None\<close>, \<^verbatim>\<open>os.name\<close> is not \<^verbatim>\<open>nt\<close>.
  \<^item> Library functions the program calls (\<^verbatim>\<open>os.path\<close>, \<^verbatim>\<open>str\<close> methods,
    \<^verbatim>\<open>werkzeug.utils.secure_filename\<close>, \<^verbatim>\<open>secrets\<close>, \<^verbatim>\<open>hashlib\<close>) are embedded
    from their reference implementations; what they read from the outside world
    (clock, entropy, file system, libmagic, Unicode tables) is a field of an
    environment record.
\<close>

subsection \<open>Python string primitives\<close>

type_synonym bytes = "8 word list"

definition startswith :: "string \<Rightarrow> string \<Rightarrow> bool" where
  \<comment> \<open>\<^verbatim>\<open>s.startswith(p)\<close>\<close>
  "startswith s p = (take (length p) s = p)"

definition endswith :: "string \<Rightarrow> string \<Rightarrow> bool" where
  \<comment> \<open>\<^verbatim>\<open>s.endswith(p)\<close>\<close>
  "endswith s p = (length p \<le> length s \<and> drop (length s - length p) s = p)"

definition py_lower_char :: "char \<Rightarrow> char" where
  \<comment> \<open>\<^verbatim>\<open>str.lower\<close> on one code point below 256: \<open>A\<close>..\<open>Z\<close> and the Latin-1
      capitals U+00C0..U+00DE (but not the multiplication sign U+00D7) move up by 32.\<close>
  "py_lower_char c =
     (let n = (of_char c :: nat)
      in if (65 \<le> n \<and> n \<le> 90) \<or> (192 \<le> n \<and> n \<le> 222 \<and> n \<noteq> 215)
         then char_of (n + 32) else c)"

definition py_lower :: "string \<Rightarrow> string" where
  "py_lower s = map py_lower_char s"

primrec rfind_from :: "char \<Rightarrow> string \<Rightarrow> int \<Rightarrow> int \<Rightarrow> int" where
  "rfind_from c [] i best = best"
| "rfind_from c (x # xs) i best = rfind_from c xs (i + 1) (if x = c then i else best)"

definition rfind :: "string \<Rightarrow> char \<Rightarrow> int" where
  \<comment> \<open>\<^verbatim>\<open>s.rfind(c)\<close>: the highest index of \<open>c\<close>, or -1.\<close>
  "rfind s c = rfind_from c s 0 (- 1)"

definition splitext :: "string \<Rightarrow> string \<times> string" where
  \<comment> \<open>\<^verbatim>\<open>os.path.splitext\<close> (\<^verbatim>\<open>genericpath._splitext\<close> with sep \<open>/\<close>, no altsep,
      extsep \<open>.\<close>). The while loop returns the split at the last dot as soon as it
      meets a character other than a dot between the last separator and that dot;
      when there is none (leading dots only) the extension is empty.\<close>
  "splitext p =
     (let sepIndex = rfind p CHR ''/'';
          dotIndex = rfind p CHR ''.''
      in if dotIndex > sepIndex \<and>
            \<not> list_all (\<lambda>c. c = CHR ''.'')
                (take (nat (dotIndex - (sepIndex + 1))) (drop (nat (sepIndex + 1)) p))
         then (take (nat dotIndex) p, drop (nat dotIndex) p)
         else (p, []))"

subsection \<open>Configuration\<close>

definition MAX_FILE_SIZE :: int where
  "MAX_FILE_SIZE = 10 * 1024 * 1024"

definition ALLOWED_EXTENSIONS :: "string set" where
  "ALLOWED_EXTENSIONS =
     {''.pdf'', ''.doc'', ''.docx'', ''.txt'', ''.jpg'', ''.jpeg'', ''.png'', ''.gif''}"

definition ALLOWED_MIME_TYPES :: "string \<rightharpoonup> string list" where
  "ALLOWED_MIME_TYPES = map_of
     [(''application/pdf'', [''.pdf'']),
      (''application/msword'', [''.doc'']),
      (''application/vnd.openxmlformats-officedocument.wordprocessingml.document'', [''.docx'']),
      (''text/plain'', [''.txt'']),
      (''image/jpeg'', [''.jpg'', ''.jpeg'']),
      (''image/png'', [''.png'']),
      (''image/gif'', [''.gif''])]"

subsection \<open>TypePolicy: \<^verbatim>\<open>is_allowed_file_type\<close>\<close>

definition reason_extension :: "string \<Rightarrow> string" where
  \<comment> \<open>\<^verbatim>\<open>f"Extension {ext} not allowed"\<close>\<close>
  "reason_extension ext = ''Extension '' @ ext @ '' not allowed''"

definition reason_mime :: "string \<Rightarrow> string" where
  \<comment> \<open>\<^verbatim>\<open>f"MIME type {detected_mime} not allowed"\<close>\<close>
  "reason_mime m = ''MIME type '' @ m @ '' not allowed''"

definition reason_mismatch :: "string \<Rightarrow> string \<Rightarrow> string" where
  \<comment> \<open>\<^verbatim>\<open>f"Extension {ext} does not match detected MIME type {detected_mime}"\<close>\<close>
  "reason_mismatch ext m = ''Extension '' @ ext @ '' does not match detected MIME type '' @ m"

definition is_allowed_file_type :: "string \<Rightarrow> string \<Rightarrow> bool \<times> string option" where
  "is_allowed_file_type filename detected_mime =
     (let ext = py_lower (snd (splitext filename))
      in if ext \<notin> ALLOWED_EXTENSIONS then (False, Some (reason_extension ext))
         else case ALLOWED_MIME_TYPES detected_mime of
                None \<Rightarrow> (False, Some (reason_mime detected_mime))
              | Some exts \<Rightarrow>
                  if ext \<notin> set exts then (False, Some (reason_mismatch ext detected_mime))
                  else (True, None))"

subsection \<open>Environment\<close>

record datetime =
  year :: nat
  month :: nat
  day :: nat
  hour :: nat
  minute :: nat
  second :: nat
  microsecond :: nat

datatype os_op = OpSave | OpStat | OpMagic | OpOpen | OpRemove

datatype exn = RequestEntityTooLarge | OSError | MagicException

text \<open>
  What the program reads from outside itself.
  \<^item> \<open>cwd\<close>: the result of \<^verbatim>\<open>os.getcwd()\<close>, \<open>None\<close> when it raises (the working
    directory was removed).
  \<^item> \<open>upload_folder\<close>: the constant \<^verbatim>\<open>UPLOAD_FOLDER\<close>, which the program computes
    from \<^verbatim>\<open>__file__\<close>.
  \<^item> \<open>now\<close>: the clock reading of \<^verbatim>\<open>datetime.now()\<close> in \<^verbatim>\<open>generate_secure_filename\<close>,
    to the microsecond; the format of the timestamp stops at the second.
  \<^item> \<open>entropy\<close>: the bytes \<^verbatim>\<open>os.urandom\<close> hands to \<^verbatim>\<open>secrets.token_hex\<close>, by position.
  \<^item> \<open>unicode_fold\<close>: for a code point above 127, the ASCII characters that survive
    \<^verbatim>\<open>unicodedata.normalize("NFKD", c).encode("ascii", "ignore")\<close> (the Unicode
    tables are not part of the program).
  \<^item> \<open>libmagic\<close>: the MIME type libmagic reports for a content.
  \<^item> \<open>digest\<close>: the digest function of \<^verbatim>\<open>hashlib\<close>, by algorithm name.
  \<^item> \<open>fault\<close>: the operating-system calls that fail although the file is there
    (permissions, locks, I/O errors); each is a call the program guards with
    \<^verbatim>\<open>try\<close>/\<^verbatim>\<open>except\<close>.
\<close>

record env =
  cwd :: "string option"
  upload_folder :: string
  now :: datetime
  entropy :: "nat \<Rightarrow> 8 word"
  unicode_fold :: "char \<Rightarrow> string"
  libmagic :: "bytes \<Rightarrow> string"
  digest :: "string \<Rightarrow> bytes \<Rightarrow> bytes"
  fault :: "os_op \<Rightarrow> string \<Rightarrow> bool"

type_synonym fs = "string \<rightharpoonup> bytes"

subsection \<open>NameSanitizer: \<^verbatim>\<open>werkzeug.utils.secure_filename\<close> and \<^verbatim>\<open>generate_secure_filename\<close>\<close>

definition is_ascii :: "char \<Rightarrow> bool" where
  "is_ascii c = ((of_char c :: nat) < 128)"

definition nfkd_ascii :: "(char \<Rightarrow> string) \<Rightarrow> string \<Rightarrow> string" where
  \<comment> \<open>\<^verbatim>\<open>unicodedata.normalize("NFKD", s).encode("ascii", "ignore").decode("ascii")\<close>:
      ASCII is left alone, everything else is decomposed and its non-ASCII part dropped.\<close>
  "nfkd_ascii decomp s =
     filter is_ascii (concat (map (\<lambda>c. if is_ascii c then [c] else decomp c) s))"

definition is_space :: "char \<Rightarrow> bool" where
  \<comment> \<open>\<^verbatim>\<open>str.isspace\<close> on ASCII: tab to carriage return, the four separators
      U+001C..U+001F, and the space.\<close>
  "is_space c =
     (let n = (of_char c :: nat) in (9 \<le> n \<and> n \<le> 13) \<or> (28 \<le> n \<and> n \<le> 32))"

fun split_ws :: "string \<Rightarrow> string \<Rightarrow> string list" where
  \<comment> \<open>\<^verbatim>\<open>s.split()\<close>: the maximal runs of non-whitespace; the second argument is the
      word being read.\<close>
  "split_ws [] w = (if w = [] then [] else [w])"
| "split_ws (c # cs) w =
     (if is_space c then (if w = [] then split_ws cs [] else w # split_ws cs [])
      else split_ws cs (w @ [c]))"

fun str_join :: "string \<Rightarrow> string list \<Rightarrow> string" where
  \<comment> \<open>\<^verbatim>\<open>sep.join(words)\<close>\<close>
  "str_join sep [] = []"
| "str_join sep [w] = w"
| "str_join sep (w # ws) = w @ sep @ str_join sep ws"

definition safe_char :: "char \<Rightarrow> bool" where
  \<comment> \<open>the complement of \<^verbatim>\<open>_filename_ascii_strip_re = [^A-Za-z0-9_.-]\<close>\<close>
  "safe_char c =
     (let n = (of_char c :: nat)
      in (48 \<le> n \<and> n \<le> 57) \<or> (65 \<le> n \<and> n \<le> 90) \<or> (97 \<le> n \<and> n \<le> 122) \<or>
         c = CHR ''_'' \<or> c = CHR ''.'' \<or> c = CHR ''-'')"

definition py_strip :: "string \<Rightarrow> string \<Rightarrow> string" where
  \<comment> \<open>\<^verbatim>\<open>s.strip(chars)\<close>\<close>
  "py_strip chars s =
     rev (dropWhile (\<lambda>c. c \<in> set chars) (rev (dropWhile (\<lambda>c. c \<in> set chars) s)))"

definition secure_filename :: "(char \<Rightarrow> string) \<Rightarrow> string \<Rightarrow> string" where
  \<comment> \<open>werkzeug's function on a POSIX host, where the branch for Windows device names
      (\<^verbatim>\<open>os.name == "nt"\<close>) is not taken.\<close>
  "secure_filename decomp filename =
     (let normalized = nfkd_ascii decomp filename;
          no_sep = map (\<lambda>c. if c = CHR ''/'' then CHR '' '' else c) normalized;
          joined = str_join ''_'' (split_ws no_sep []);
          stripped = filter safe_char joined
      in py_strip ''._'' stripped)"

definition digit_char :: "nat \<Rightarrow> char" where
  "digit_char d = char_of (48 + d mod 10)"

definition two_digits :: "nat \<Rightarrow> string" where
  "two_digits n = [digit_char (n div 10), digit_char n]"

definition four_digits :: "nat \<Rightarrow> string" where
  "four_digits n =
     [digit_char (n div 1000), digit_char (n div 100), digit_char (n div 10), digit_char n]"

definition strftime :: "datetime \<Rightarrow> string" where
  \<comment> \<open>\<^verbatim>\<open>strftime('%Y%m%d_%H%M%S')\<close> of a clock reading (a four-digit year, two-digit
      month, day, hour, minute and second).\<close>
  "strftime t =
     four_digits (year t) @ two_digits (month t) @ two_digits (day t) @ ''_'' @
     two_digits (hour t) @ two_digits (minute t) @ two_digits (second t)"

definition hex_digit :: "nat \<Rightarrow> char" where
  \<comment> \<open>the digit of \<^verbatim>\<open>binascii.hexlify\<close>: \<^verbatim>\<open>0123456789abcdef\<close>\<close>
  "hex_digit n = (if n < 10 then char_of (48 + n) else char_of (87 + n))"

definition hexlify :: "bytes \<Rightarrow> string" where
  "hexlify bs = concat (map (\<lambda>b. [hex_digit (unat b div 16), hex_digit (unat b mod 16)]) bs)"

definition token_bytes :: "env \<Rightarrow> nat \<Rightarrow> bytes" where
  \<comment> \<open>\<^verbatim>\<open>secrets.token_bytes(nbytes)\<close>: the next \<open>nbytes\<close> bytes of the system's entropy.\<close>
  "token_bytes e nbytes = map (entropy e) [0..<nbytes]"

definition token_hex :: "env \<Rightarrow> nat \<Rightarrow> string" where
  \<comment> \<open>\<^verbatim>\<open>secrets.token_hex(nbytes)\<close>\<close>
  "token_hex e nbytes = hexlify (token_bytes e nbytes)"

definition generate_secure_filename :: "env \<Rightarrow> string \<Rightarrow> string" where
  "generate_secure_filename e original_filename =
     (let safe_name = secure_filename (unicode_fold e) original_filename;
          (name, ext) = splitext safe_name;
          timestamp = strftime (now e);
          random_hash = token_hex e 8;
          name' = (if name \<noteq> [] then take 50 name else ''file'')
      in name' @ ''_'' @ timestamp @ ''_'' @ random_hash @ ext)"

subsection \<open>PathGuard: \<^verbatim>\<open>os.path.abspath\<close> and \<^verbatim>\<open>is_path_safe\<close>\<close>

definition os_path_join :: "string \<Rightarrow> string \<Rightarrow> string" where
  \<comment> \<open>\<^verbatim>\<open>posixpath.join(a, b)\<close>\<close>
  "os_path_join a b =
     (if startswith b ''/'' then b
      else if a = [] \<or> endswith a ''/'' then a @ b
      else a @ ''/'' @ b)"

fun split_sep :: "char \<Rightarrow> string \<Rightarrow> string list" where
  \<comment> \<open>\<^verbatim>\<open>s.split(sep)\<close> for a one-character separator\<close>
  "split_sep sep [] = [[]]"
| "split_sep sep (c # cs) =
     (if c = sep then [] # split_sep sep cs
      else (case split_sep sep cs of
              [] \<Rightarrow> [[c]]
            | w # ws \<Rightarrow> (c # w) # ws))"

fun normpath_loop :: "nat \<Rightarrow> string list \<Rightarrow> string list \<Rightarrow> string list" where
  \<comment> \<open>the \<^verbatim>\<open>for comp in comps\<close> loop of \<^verbatim>\<open>posixpath.normpath\<close>; \<open>part\<close> is
      \<^verbatim>\<open>comp\<close> and the last argument is \<^verbatim>\<open>new_comps\<close>.\<close>
  "normpath_loop initial_slashes [] new_comps = new_comps"
| "normpath_loop initial_slashes (part # comps) new_comps =
     (if part = [] \<or> part = ''.'' then normpath_loop initial_slashes comps new_comps
      else if part \<noteq> ''..'' \<or> (initial_slashes = 0 \<and> new_comps = []) \<or>
              (new_comps \<noteq> [] \<and> last new_comps = ''..'')
           then normpath_loop initial_slashes comps (new_comps @ [part])
      else if new_comps \<noteq> [] then normpath_loop initial_slashes comps (butlast new_comps)
      else normpath_loop initial_slashes comps new_comps)"

definition normpath :: "string \<Rightarrow> string" where
  \<comment> \<open>\<^verbatim>\<open>posixpath.normpath\<close>\<close>
  "normpath path =
     (if path = [] then ''.''
      else
        let initial_slashes =
              (if startswith path ''/'' then
                 (if startswith path ''//'' \<and> \<not> startswith path ''///'' then 2 else 1)
               else (0::nat));
            comps = normpath_loop initial_slashes (split_sep CHR ''/'' path) [];
            joined = str_join ''/'' comps;
            path' = replicate initial_slashes CHR ''/'' @ joined
        in if path' = [] then ''.'' else path')"

definition os_getcwd :: "env \<Rightarrow> exn + string" where
  "os_getcwd e = (case cwd e of None \<Rightarrow> Inl OSError | Some d \<Rightarrow> Inr d)"

definition abspath :: "env \<Rightarrow> string \<Rightarrow> exn + string" where
  \<comment> \<open>\<^verbatim>\<open>posixpath.abspath\<close>: a relative path is joined to the working directory.\<close>
  "abspath e path =
     (if startswith path ''/'' then Inr (normpath path)
      else case os_getcwd e of
             Inl x \<Rightarrow> Inl x
           | Inr d \<Rightarrow> Inr (normpath (os_path_join d path)))"

definition is_path_safe :: "env \<Rightarrow> string \<Rightarrow> string \<Rightarrow> bool" where
  "is_path_safe e file_path base_directory =
     (case abspath e base_directory of
        Inl x \<Rightarrow> False
      | Inr abs_base \<Rightarrow>
          (case abspath e file_path of
             Inl x \<Rightarrow> False
           | Inr abs_file \<Rightarrow> startswith abs_file abs_base))"

subsection \<open>File system\<close>

text \<open>
  The file system is a map from paths to contents. A call fails when the file is not
  there, or when the environment says so. Directories are not modelled:
  \<^verbatim>\<open>ensure_upload_directory\<close> leaves the map as it is.
\<close>

definition os_path_exists :: "fs \<Rightarrow> string \<Rightarrow> bool" where
  "os_path_exists files p = (files p \<noteq> None)"

definition os_path_getsize :: "env \<Rightarrow> fs \<Rightarrow> string \<Rightarrow> exn + int" where
  "os_path_getsize e files p =
     (case files p of
        None \<Rightarrow> Inl OSError
      | Some content \<Rightarrow> if fault e OpStat p then Inl OSError else Inr (int (length content)))"

definition os_remove :: "env \<Rightarrow> fs \<Rightarrow> string \<Rightarrow> exn + fs" where
  "os_remove e files p =
     (case files p of
        None \<Rightarrow> Inl OSError
      | Some content \<Rightarrow> if fault e OpRemove p then Inl OSError else Inr (files(p := None)))"

definition file_save :: "env \<Rightarrow> fs \<Rightarrow> string \<Rightarrow> bytes \<Rightarrow> exn + fs" where
  \<comment> \<open>\<^verbatim>\<open>file.save(file_path)\<close>: the uploaded bytes become the content at the path.\<close>
  "file_save e files p content =
     (if fault e OpSave p then Inl OSError else Inr (files(p \<mapsto> content)))"

definition open_rb :: "env \<Rightarrow> fs \<Rightarrow> string \<Rightarrow> exn + bytes" where
  \<comment> \<open>\<^verbatim>\<open>open(file_path, 'rb')\<close>: the bytes still to be read.\<close>
  "open_rb e files p =
     (case files p of
        None \<Rightarrow> Inl OSError
      | Some content \<Rightarrow> if fault e OpOpen p then Inl OSError else Inr content)"

definition magic_from_file :: "env \<Rightarrow> fs \<Rightarrow> string \<Rightarrow> exn + string" where
  \<comment> \<open>\<^verbatim>\<open>magic.Magic(mime=True).from_file(file_path)\<close>\<close>
  "magic_from_file e files p =
     (case files p of
        None \<Rightarrow> Inl OSError
      | Some content \<Rightarrow> if fault e OpMagic p then Inl MagicException else Inr (libmagic e content))"

subsection \<open>TypeSniffer, SizeGuard, IntegrityHasher, ThreatScanner, cleanup\<close>

definition get_file_magic_type :: "env \<Rightarrow> fs \<Rightarrow> string \<Rightarrow> string option" where
  "get_file_magic_type e files file_path =
     (case magic_from_file e files file_path of
        Inr detected_mime \<Rightarrow> Some detected_mime
      | Inl x \<Rightarrow> None)"

definition validate_file_size :: "env \<Rightarrow> fs \<Rightarrow> string \<Rightarrow> int \<Rightarrow> bool \<times> int" where
  "validate_file_size e files file_path max_size =
     (case os_path_getsize e files file_path of
        Inr file_size \<Rightarrow> (file_size \<le> max_size, file_size)
      | Inl x \<Rightarrow> (False, 0))"

definition hash_update :: "bytes \<Rightarrow> bytes \<Rightarrow> bytes" where
  \<comment> \<open>\<^verbatim>\<open>hash_obj.update(chunk)\<close>: a hash object stands for the message fed to it so
      far (hashlib: repeated calls are equivalent to one call with the concatenation).\<close>
  "hash_update h chunk = h @ chunk"

function hash_loop :: "bytes \<Rightarrow> bytes \<Rightarrow> bytes" where
  \<comment> \<open>\<^verbatim>\<open>for chunk in iter(lambda: f.read(4096), b''): hash_obj.update(chunk)\<close>; the
      first argument is what is left to read.\<close>
  "hash_loop f h =
     (let chunk = take 4096 f
      in if chunk = [] then h else hash_loop (drop 4096 f) (hash_update h chunk))"
  by pat_completeness auto
termination
  by (relation "measure (\<lambda>(f, h). length f)") auto

declare hash_loop.simps [simp del]

definition hexdigest :: "env \<Rightarrow> string \<Rightarrow> bytes \<Rightarrow> string" where
  \<comment> \<open>\<^verbatim>\<open>hash_obj.hexdigest()\<close> of a hash object made by \<^verbatim>\<open>hashlib.new(algorithm)\<close>\<close>
  "hexdigest e algorithm h = hexlify (digest e algorithm h)"

definition calculate_file_hash :: "env \<Rightarrow> fs \<Rightarrow> string \<Rightarrow> string \<Rightarrow> exn + string" where
  "calculate_file_hash e files file_path algorithm =
     (case open_rb e files file_path of
        Inl x \<Rightarrow> Inl x
      | Inr f \<Rightarrow> Inr (hexdigest e algorithm (hash_loop f [])))"

record scan_result =
  clean :: bool
  threats :: "string list"

definition scan_file_for_viruses :: "string \<Rightarrow> scan_result" where
  "scan_file_for_viruses file_path = \<lparr>clean = True, threats = []\<rparr>"

definition cleanup_file :: "env \<Rightarrow> fs \<Rightarrow> string \<Rightarrow> fs" where
  \<comment> \<open>The \<^verbatim>\<open>except\<close> branch logs the error and returns: the file stays.\<close>
  "cleanup_file e files file_path =
     (if os_path_exists files file_path then
        (case os_remove e files file_path of
           Inr files' \<Rightarrow> files'
         | Inl x \<Rightarrow> files)
      else files)"

subsection \<open>UploadPipeline: \<^verbatim>\<open>upload_file\<close>\<close>

text \<open>
  A request carries a multipart body with at most one part named \<^verbatim>\<open>file\<close>, which has a
  filename and bytes. \<open>envelope\<close> counts the bytes of the body around the file content
  (boundaries and part headers), so the body is that much longer than the file.
  \<open>declared_size\<close> is the size the client announces for the part; the program never
  reads it. The server reads the body the request delivers, and reading
  \<^verbatim>\<open>request.files\<close> raises \<^verbatim>\<open>RequestEntityTooLarge\<close> when that body is longer than
  \<^verbatim>\<open>MAX_CONTENT_LENGTH\<close>, which the program sets to \<^verbatim>\<open>MAX_FILE_SIZE\<close>.
\<close>

record request =
  envelope :: nat
  declared_size :: "int option"
  file_field :: "(string \<times> bytes) option"

definition body_length :: "request \<Rightarrow> int" where
  "body_length req =
     int (envelope req) +
     (case file_field req of
        None \<Rightarrow> 0
      | Some (filename, content) \<Rightarrow> int (length content))"

definition request_files :: "request \<Rightarrow> exn + (string \<times> bytes) option" where
  "request_files req =
     (if body_length req > MAX_FILE_SIZE then Inl RequestEntityTooLarge
      else Inr (file_field req))"

text \<open>
  The \<^verbatim>\<open>error\<close> field of a rejection. The messages the program formats with a
  floating-point number or by iterating over a set are constructors here:
  \<^item> \<open>NoFileProvided\<close>: \<^verbatim>\<open>No file provided\<close>
  \<^item> \<open>NoFileSelected\<close>: \<^verbatim>\<open>No file selected\<close>
  \<^item> \<open>FileTypeNotAllowed\<close>: \<^verbatim>\<open>File type not allowed. Allowed types: ...\<close>
  \<^item> \<open>InvalidFilePath\<close>: \<^verbatim>\<open>Invalid file path\<close>
  \<^item> \<open>FileSizeExceeds file_size\<close>: \<^verbatim>\<open>File size (...MB) exceeds maximum allowed size (...MB)\<close>
  \<^item> \<open>CouldNotVerifyFileType\<close>: \<^verbatim>\<open>Could not verify file type\<close>
  \<^item> \<open>InvalidFileType error_msg\<close>: the reason of \<^verbatim>\<open>is_allowed_file_type\<close>
  \<^item> \<open>FailedSecurityScan\<close>: \<^verbatim>\<open>File failed security scan\<close>
  \<^item> \<open>FileTooLarge\<close>: \<^verbatim>\<open>File too large. Maximum size: ...MB\<close>
  \<^item> \<open>UploadFailed\<close>: \<^verbatim>\<open>Upload failed. Please try again.\<close>
\<close>

datatype upload_error =
    NoFileProvided
  | NoFileSelected
  | FileTypeNotAllowed
  | InvalidFilePath
  | FileSizeExceeds int
  | CouldNotVerifyFileType
  | InvalidFileType "string option"
  | FailedSecurityScan
  | FileTooLarge
  | UploadFailed

text \<open>The \<^verbatim>\<open>data\<close> object of an acceptance (without \<^verbatim>\<open>uploaded_at\<close>, a second clock reading).\<close>

record upload_data =
  data_url :: string
  data_name :: string
  data_size :: int
  data_mime_type :: string
  data_hash :: string

datatype response =
    Rejected nat upload_error
  | Accepted nat upload_data

definition handle_exception :: "exn \<Rightarrow> response" where
  \<comment> \<open>the two \<^verbatim>\<open>except\<close> clauses that close \<^verbatim>\<open>upload_file\<close>\<close>
  "handle_exception x =
     (case x of
        RequestEntityTooLarge \<Rightarrow> Rejected 413 FileTooLarge
      | _ \<Rightarrow> Rejected 500 UploadFailed)"

definition validate_stored ::
  "env \<Rightarrow> fs \<Rightarrow> string \<Rightarrow> string \<Rightarrow> string \<Rightarrow> exn + (fs \<times> response)" where
  \<comment> \<open>The body of the inner \<^verbatim>\<open>try\<close> (security checks 2 to 5, the hash and the
      acceptance); \<open>Inl\<close> is an exception that leaves the body.\<close>
  "validate_stored e files filename secure_name file_path =
     (let (size_valid, file_size) = validate_file_size e files file_path MAX_FILE_SIZE
      in if \<not> size_valid then
           Inr (cleanup_file e files file_path, Rejected 400 (FileSizeExceeds file_size))
         else
           case get_file_magic_type e files file_path of
             None \<Rightarrow> Inr (cleanup_file e files file_path, Rejected 400 CouldNotVerifyFileType)
           | Some detected_mime \<Rightarrow>
               if detected_mime = [] then
                 Inr (cleanup_file e files file_path, Rejected 400 CouldNotVerifyFileType)
               else
                 let (is_valid, error_msg) = is_allowed_file_type filename detected_mime
                 in if \<not> is_valid then
                      Inr (cleanup_file e files file_path, Rejected 400 (InvalidFileType error_msg))
                    else
                      let scan = scan_file_for_viruses file_path
                      in if \<not> clean scan then
                           Inr (cleanup_file e files file_path, Rejected 400 FailedSecurityScan)
                         else
                           case calculate_file_hash e files file_path ''sha256'' of
                             Inl x \<Rightarrow> Inl x
                           | Inr file_hash \<Rightarrow>
                               Inr (files, Accepted 200
                                 \<lparr>data_url = ''/api/files/'' @ secure_name,
                                  data_name = filename,
                                  data_size = file_size,
                                  data_mime_type = detected_mime,
                                  data_hash = file_hash\<rparr>))"

definition receive_and_store ::
  "env \<Rightarrow> fs \<Rightarrow> request \<Rightarrow> response + (string \<times> string \<times> string \<times> fs)" where
  \<comment> \<open>\<^verbatim>\<open>upload_file\<close> up to \<^verbatim>\<open>file.save(file_path)\<close>: validations 1 to 3, the generated
      name, security check 1 and the write. \<open>Inl\<close> is a response given before anything
      is written; \<open>Inr\<close> is the filename, the generated name, the path and the file
      system with the upload stored.\<close>
  "receive_and_store e files req =
     (case request_files req of
        Inl x \<Rightarrow> Inl (handle_exception x)
      | Inr None \<Rightarrow> Inl (Rejected 400 NoFileProvided)
      | Inr (Some (filename, content)) \<Rightarrow>
          if filename = [] then Inl (Rejected 400 NoFileSelected)
          else if py_lower (snd (splitext filename)) \<notin> ALLOWED_EXTENSIONS then
            Inl (Rejected 400 FileTypeNotAllowed)
          else
            let secure_name = generate_secure_filename e filename;
                file_path = os_path_join (upload_folder e) secure_name
            in if \<not> is_path_safe e file_path (upload_folder e) then
                 Inl (Rejected 400 InvalidFilePath)
               else
                 case file_save e files file_path content of
                   Inl x \<Rightarrow> Inl (handle_exception x)
                 | Inr stored \<Rightarrow> Inr (filename, secure_name, file_path, stored))"

definition upload_file :: "env \<Rightarrow> fs \<Rightarrow> request \<Rightarrow> fs \<times> response" where
  \<comment> \<open>The whole handler: the first part, then the inner \<^verbatim>\<open>try\<close>, whose \<^verbatim>\<open>except\<close>
      cleans up and raises again into the outer handlers.\<close>
  "upload_file e files req =
     (case receive_and_store e files req of
        Inl early \<Rightarrow> (files, early)
      | Inr (filename, secure_name, file_path, stored) \<Rightarrow>
          (case validate_stored e stored filename secure_name file_path of
             Inl x \<Rightarrow> (cleanup_file e stored file_path, handle_exception x)
           | Inr result \<Rightarrow> result))"

subsection \<open>The specification's reading of PathGuard\<close>

definition spec_path_within :: "string \<Rightarrow> string \<Rightarrow> bool" where
  \<comment> \<open>From the specification's words, on canonical absolute paths: the candidate is the
      root itself or a descendant of it, that is, it continues the root by a separator.\<close>
  "spec_path_within abs_file abs_base =
     (abs_file = abs_base \<or>
      startswith abs_file (if endswith abs_base ''/'' then abs_base else abs_base @ ''/''))"

subsection \<open>Concrete runs\<close>

text \<open>
  A clock reading, a sniffer that knows the JPEG signature, an environment without
  faults, and requests, for the closed statements below.
\<close>

definition clock0 :: datetime where
  "clock0 =
     \<lparr>year = 2024, month = 3, day = 9, hour = 14, minute = 5, second = 7, microsecond = 0\<rparr>"

definition sniff0 :: "bytes \<Rightarrow> string" where
  \<comment> \<open>a small libmagic: the JPEG signature, and the library's generic answers for what
      it has no signature for (printable text, anything else)\<close>
  "sniff0 content =
     (if take 3 content = [255, 216, 255] then ''image/jpeg''
      else if content \<noteq> [] \<and>
              list_all (\<lambda>b. unat b \<in> {9, 10, 13} \<or> (32 \<le> unat b \<and> unat b < 127)) content
           then ''text/plain''
      else ''application/octet-stream'')"

definition env_ok :: env where
  "env_ok =
     \<lparr>cwd = Some ''/srv/app'', upload_folder = ''/srv/app/uploads'', now = clock0,
      entropy = (\<lambda>i. word_of_nat (17 * i + 3)), unicode_fold = (\<lambda>c. []),
      libmagic = sniff0, digest = (\<lambda>algorithm content. take 4 content),
      fault = (\<lambda>call p. False)\<rparr>"

definition req_photo :: request where
  "req_photo =
     \<lparr>envelope = 153, declared_size = Some 4,
      file_field = Some (''PHOTO.JPG'', [255, 216, 255, 1])\<rparr>"

definition req_fake :: request where
  "req_fake =
     \<lparr>envelope = 155, declared_size = None,
      file_field = Some (''payload.jpg'', [77, 90, 144, 0])\<rparr>"

definition req_notes :: request where
  \<comment> \<open>three bytes of text, \<^verbatim>\<open>hi\<close> and a newline: no signature to recognise\<close>
  "req_notes =
     \<lparr>envelope = 153, declared_size = None,
      file_field = Some (''notes.txt'', [104, 105, 10])\<rparr>"

definition env_locked :: env where
  \<comment> \<open>as \<open>env_ok\<close>, but the operating system refuses every removal\<close>
  "env_locked = env_ok\<lparr>fault := (\<lambda>call p. call = OpRemove)\<rparr>"

definition env_blind :: env where
  \<comment> \<open>as \<open>env_ok\<close>, but libmagic fails on every file\<close>
  "env_blind = env_ok\<lparr>fault := (\<lambda>call p. call = OpMagic)\<rparr>"

definition env_nostat :: env where
  \<comment> \<open>as \<open>env_ok\<close>, but no file size can be read\<close>
  "env_nostat = env_ok\<lparr>fault := (\<lambda>call p. call = OpStat)\<rparr>"

definition env_again :: env where
  \<comment> \<open>a second call a quarter of a second after \<open>env_ok\<close>, drawing the same random bytes\<close>
  "env_again = env_ok\<lparr>now := clock0\<lparr>microsecond := 250000\<rparr>\<rparr>"



section \<open>Properties\<close>

subsection \<open>The shape of a run of \<^verbatim>\<open>upload_file\<close>\<close>

lemma request_files_InrD:
  "request_files req = Inr ff \<Longrightarrow> file_field req = ff"
  by (auto simp: request_files_def split: if_splits)

lemma request_files_bound:
  assumes "request_files req = Inr (Some (filename, content))"
  shows "int (length content) \<le> MAX_FILE_SIZE"
proof -
  from assms have "file_field req = Some (filename, content)"
    and "\<not> body_length req > MAX_FILE_SIZE"
    by (auto simp: request_files_def split: if_splits)
  then show ?thesis by (simp add: body_length_def)
qed

lemma receive_and_store_InrD:
  assumes "receive_and_store e files req = Inr (filename, secure_name, file_path, stored)"
  shows "\<exists>content. file_field req = Some (filename, content) \<and>
           stored = files(file_path \<mapsto> content)"
    and "filename \<noteq> []"
    and "py_lower (snd (splitext filename)) \<in> ALLOWED_EXTENSIONS"
    and "secure_name = generate_secure_filename e filename"
    and "file_path = os_path_join (upload_folder e) secure_name"
    and "is_path_safe e file_path (upload_folder e)"
  using assms
  by (auto simp: receive_and_store_def file_save_def Let_def
      dest!: request_files_InrD split: sum.splits option.splits if_splits prod.splits)

lemma is_allowed_file_type_TrueD:
  "is_allowed_file_type filename m = (True, r) \<Longrightarrow> r = None"
  by (auto simp: is_allowed_file_type_def Let_def split: option.splits if_splits)

lemma validate_stored_AcceptedD:
  assumes "validate_stored e stored filename secure_name file_path = Inr (files', Accepted st d)"
  shows "files' = stored" and "st = 200"
    and "get_file_magic_type e stored file_path = Some (data_mime_type d)"
    and "is_allowed_file_type filename (data_mime_type d) = (True, None)"
    and "calculate_file_hash e stored file_path ''sha256'' = Inr (data_hash d)"
    and "data_url d = ''/api/files/'' @ secure_name"
    and "data_name d = filename"
    and "validate_file_size e stored file_path MAX_FILE_SIZE = (True, data_size d)"
  using assms
  by (auto simp: validate_stored_def Let_def dest: is_allowed_file_type_TrueD
      split: sum.splits option.splits if_splits prod.splits)



lemma upload_file_stored:
  assumes "receive_and_store e files req = Inr (filename, secure_name, file_path, stored)"
  shows "upload_file e files req =
           (case validate_stored e stored filename secure_name file_path of
              Inl x \<Rightarrow> (cleanup_file e stored file_path, handle_exception x)
            | Inr result \<Rightarrow> result)"
  using assms by (simp add: upload_file_def)

lemma upload_file_AcceptedD:
  assumes "upload_file e files req = (files', Accepted st d)"
  shows "\<exists>filename secure_name file_path.
           receive_and_store e files req = Inr (filename, secure_name, file_path, files') \<and>
           validate_stored e files' filename secure_name file_path = Inr (files', Accepted st d)"
proof (cases "receive_and_store e files req")
  case (Inl early)
  with assms have "early = Accepted st d" by (simp add: upload_file_def)
  with Inl show ?thesis
    by (auto simp: receive_and_store_def handle_exception_def Let_def
        split: sum.splits option.splits if_splits prod.splits exn.splits)
next
  case (Inr r)
  obtain filename secure_name file_path stored where r: "r = (filename, secure_name, file_path, stored)"
    by (cases r) auto
  show ?thesis
  proof (cases "validate_stored e stored filename secure_name file_path")
    case (Inl x)
    with assms Inr r show ?thesis
      by (auto simp: upload_file_def handle_exception_def split: exn.splits)
  next
    case vs: (Inr result)
    with assms Inr r have res: "result = (files', Accepted st d)"
      by (simp add: upload_file_def)
    with vs have "files' = stored" by (auto dest: validate_stored_AcceptedD(1))
    with Inr r vs res show ?thesis by auto
  qed
qed



subsection \<open>TypePolicy\<close>










subsection \<open>Case of the extension\<close>

lemma py_lower_char_raised:
  assumes "(65 \<le> (of_char c :: nat) \<and> (of_char c :: nat) \<le> 90) \<or>
    (192 \<le> (of_char c :: nat) \<and> (of_char c :: nat) \<le> 222 \<and> (of_char c :: nat) \<noteq> 215)"
  shows "py_lower_char c = char_of ((of_char c :: nat) + 32)"
    and "(of_char (py_lower_char c) :: nat) = of_char c + 32"
proof -
  show low: "py_lower_char c = char_of ((of_char c :: nat) + 32)"
    using assms by (simp add: py_lower_char_def Let_def)
  from assms have "(of_char c :: nat) + 32 < 256" by arith
  then show "(of_char (py_lower_char c) :: nat) = of_char c + 32"
    unfolding low by simp
qed

lemma py_lower_char_kept:
  assumes "\<not> ((65 \<le> (of_char c :: nat) \<and> (of_char c :: nat) \<le> 90) \<or>
    (192 \<le> (of_char c :: nat) \<and> (of_char c :: nat) \<le> 222 \<and> (of_char c :: nat) \<noteq> 215))"
  shows "py_lower_char c = c"
  using assms by (auto simp: py_lower_char_def Let_def)

lemma py_lower_char_low:
  assumes "(of_char c0 :: nat) < 65"
  shows "(py_lower_char c = c0) = (c = c0)"
proof (cases "(65 \<le> (of_char c :: nat) \<and> (of_char c :: nat) \<le> 90) \<or>
    (192 \<le> (of_char c :: nat) \<and> (of_char c :: nat) \<le> 222 \<and> (of_char c :: nat) \<noteq> 215)")
  case True
  from py_lower_char_raised(2) [OF True] assms True have "py_lower_char c \<noteq> c0"
    by auto
  moreover from True assms have "c \<noteq> c0" by auto
  ultimately show ?thesis by simp
next
  case False
  then show ?thesis by (simp add: py_lower_char_kept)
qed

lemma py_lower_char_idem: "py_lower_char (py_lower_char c) = py_lower_char c"
proof (cases "(65 \<le> (of_char c :: nat) \<and> (of_char c :: nat) \<le> 90) \<or>
    (192 \<le> (of_char c :: nat) \<and> (of_char c :: nat) \<le> 222 \<and> (of_char c :: nat) \<noteq> 215)")
  case True
  show ?thesis
    by (rule py_lower_char_kept) (use py_lower_char_raised(2) [OF True] True in arith)
next
  case False
  then show ?thesis by (simp add: py_lower_char_kept)
qed

lemma py_lower_idem: "py_lower (py_lower s) = py_lower s"
  by (simp add: py_lower_def py_lower_char_idem)

lemma rfind_from_map:
  assumes "\<And>x. (f x = c) = (x = c)"
  shows "rfind_from c (map f xs) i best = rfind_from c xs i best"
  by (induction xs arbitrary: i best) (simp_all add: assms)

lemma rfind_py_lower:
  assumes "(of_char c :: nat) < 65"
  shows "rfind (py_lower s) c = rfind s c"
  unfolding rfind_def py_lower_def
  by (rule rfind_from_map) (rule py_lower_char_low [OF assms])

lemma splitext_py_lower:
  "splitext (py_lower p) = (py_lower (fst (splitext p)), py_lower (snd (splitext p)))"
proof -
  have dots: "list_all (\<lambda>c. c = CHR ''.'') (map py_lower_char xs) = list_all (\<lambda>c. c = CHR ''.'') xs"
    for xs
    by (induction xs) (simp_all add: py_lower_char_low)
  have r1: "rfind (py_lower p) CHR ''/'' = rfind p CHR ''/''"
    by (rule rfind_py_lower) simp
  have r2: "rfind (py_lower p) CHR ''.'' = rfind p CHR ''.''"
    by (rule rfind_py_lower) simp
  show ?thesis
    unfolding splitext_def r1 r2 Let_def
    by (simp add: py_lower_def take_map drop_map dots)
qed

lemma lower_ext_cong:
  assumes "py_lower f = py_lower g"
  shows "py_lower (snd (splitext f)) = py_lower (snd (splitext g))"
proof -
  have "py_lower (snd (splitext f)) = snd (splitext (py_lower f))"
    by (simp add: splitext_py_lower)
  also have "\<dots> = snd (splitext (py_lower g))" by (simp add: assms)
  also have "\<dots> = py_lower (snd (splitext g))" by (simp add: splitext_py_lower)
  finally show ?thesis .
qed

lemma validate_stored_not_gate:
  "validate_stored e stored filename secure_name file_path \<noteq>
     Inr (files', Rejected st FileTypeNotAllowed)"
  by (auto simp: validate_stored_def Let_def
      split: sum.splits option.splits if_splits prod.splits)

lemma upload_file_gate_iff:
  "(snd (upload_file e files req) = Rejected 400 FileTypeNotAllowed) =
     (\<exists>filename content. request_files req = Inr (Some (filename, content)) \<and>
        filename \<noteq> [] \<and> py_lower (snd (splitext filename)) \<notin> ALLOWED_EXTENSIONS)"
proof (cases "receive_and_store e files req")
  case (Inl early)
  then show ?thesis
    by (auto simp: upload_file_def receive_and_store_def handle_exception_def Let_def
        split: sum.splits option.splits if_splits prod.splits exn.splits)
next
  case (Inr t)
  obtain filename secure_name file_path stored where
    t: "t = (filename, secure_name, file_path, stored)" by (cases t) auto
  have "snd (upload_file e files req) \<noteq> Rejected 400 FileTypeNotAllowed"
  proof (cases "validate_stored e stored filename secure_name file_path")
    case (Inl x)
    with Inr t show ?thesis
      by (auto simp: upload_file_def handle_exception_def split: exn.splits)
  next
    case vs: (Inr result)
    with Inr t validate_stored_not_gate [of e stored filename secure_name file_path "fst result" 400]
    show ?thesis
      by (cases result) (auto simp: upload_file_def)
  qed
  moreover from Inr t have "\<not> (\<exists>filename content. request_files req = Inr (Some (filename, content)) \<and>
        filename \<noteq> [] \<and> py_lower (snd (splitext filename)) \<notin> ALLOWED_EXTENSIONS)"
    by (auto simp: receive_and_store_def Let_def
        split: sum.splits option.splits if_splits prod.splits)
  ultimately show ?thesis by simp
qed

lemma request_files_file_field:
  "request_files (req\<lparr>file_field := Some (filename, content)\<rparr>) =
     (if int (envelope req) + int (length content) > MAX_FILE_SIZE
      then Inl RequestEntityTooLarge else Inr (Some (filename, content)))"
  by (simp add: request_files_def body_length_def)

text \<open>
  C10. The extension gate of \<^verbatim>\<open>upload_file\<close> (validation 3) and the checks of
  \<^verbatim>\<open>is_allowed_file_type\<close> lower-case the extension before they look it up. So two
  filenames that differ only in case, such as \<^verbatim>\<open>PHOTO.JPG\<close> and \<^verbatim>\<open>photo.jpg\<close>, pass or
  fail the gate together, get the same verdict and reason from
  \<^verbatim>\<open>is_allowed_file_type\<close>, and are turned away by the gate of \<^verbatim>\<open>upload_file\<close> together.
\<close>

theorem extension_checks_ignore_case:
  assumes "py_lower f = py_lower g"
  shows "(py_lower (snd (splitext f)) \<in> ALLOWED_EXTENSIONS) =
           (py_lower (snd (splitext g)) \<in> ALLOWED_EXTENSIONS) \<and>
         is_allowed_file_type f m = is_allowed_file_type g m \<and>
         (snd (upload_file e files (req\<lparr>file_field := Some (f, content)\<rparr>)) =
            Rejected 400 FileTypeNotAllowed) =
         (snd (upload_file e files (req\<lparr>file_field := Some (g, content)\<rparr>)) =
            Rejected 400 FileTypeNotAllowed)"
proof -
  note ext = lower_ext_cong [OF assms]
  from assms have "length f = length g"
    by (metis length_map py_lower_def)
  then have empty: "(f = []) = (g = [])" by auto
  show ?thesis
    unfolding upload_file_gate_iff request_files_file_field
    by (auto simp: ext empty is_allowed_file_type_def split: sum.splits)
qed

theorem extension_checks_ignore_case_witness:
  "py_lower ''PHOTO.JPG'' = py_lower ''photo.jpg'' \<and>
   py_lower (snd (splitext ''PHOTO.JPG'')) \<in> ALLOWED_EXTENSIONS \<and>
   py_lower (snd (splitext ''photo.jpg'')) \<in> ALLOWED_EXTENSIONS \<and>
   is_allowed_file_type ''PHOTO.JPG'' ''image/jpeg'' = (True, None) \<and>
   is_allowed_file_type ''photo.jpg'' ''image/jpeg'' = (True, None)"
proof -
  have h: "py_lower ''PHOTO.JPG'' = py_lower ''photo.jpg''" by code_simp
  have a: "py_lower (snd (splitext ''photo.jpg'')) \<in> ALLOWED_EXTENSIONS" by code_simp
  have b: "is_allowed_file_type ''photo.jpg'' ''image/jpeg'' = (True, None)" by code_simp
  from extension_checks_ignore_case [OF h, where m = "''image/jpeg''"] h a b
  show ?thesis by simp
qed

subsection \<open>SizeGuard\<close>

lemma receive_and_store_eq:
  assumes "request_files req = Inr (Some (filename, content))"
    and "filename \<noteq> []"
    and "py_lower (snd (splitext filename)) \<in> ALLOWED_EXTENSIONS"
    and "generate_secure_filename e filename = secure_name"
    and "os_path_join (upload_folder e) secure_name = file_path"
    and "is_path_safe e file_path (upload_folder e)"
    and "\<not> fault e OpSave file_path"
  shows "receive_and_store e files req =
           Inr (filename, secure_name, file_path, files(file_path \<mapsto> content))"
  using assms by (simp add: receive_and_store_def file_save_def Let_def)

lemma cleanup_file_removed:
  "\<not> fault e OpRemove p \<Longrightarrow> cleanup_file e files p p = None"
  by (auto simp: cleanup_file_def os_path_exists_def os_remove_def split: option.splits)




lemma validate_stored_size_rejection:
  assumes "\<not> fst (validate_file_size e stored file_path MAX_FILE_SIZE)"
  shows "validate_stored e stored filename secure_name file_path =
           Inr (cleanup_file e stored file_path,
                Rejected 400 (FileSizeExceeds (snd (validate_file_size e stored file_path MAX_FILE_SIZE))))"
  using assms
  by (cases "validate_file_size e stored file_path MAX_FILE_SIZE")
    (simp add: validate_stored_def)

text \<open>
  C9. \<^verbatim>\<open>validate_file_size\<close> compares with \<open>\<le>\<close>: a file whose size on disk is exactly the
  maximum is within the limit. When the size cannot be read it returns \<open>(False, 0)\<close>, and
  \<^verbatim>\<open>upload_file\<close> then rejects the upload.
\<close>

theorem validate_file_size_boundary:
  "(os_path_getsize e files p = Inr n \<longrightarrow>
      validate_file_size e files p max_size = (n \<le> max_size, n)) \<and>
   (os_path_getsize e files p = Inr max_size \<longrightarrow>
      validate_file_size e files p max_size = (True, max_size)) \<and>
   (os_path_getsize e files p = Inl x \<longrightarrow>
      validate_file_size e files p max_size = (False, 0)) \<and>
   (receive_and_store e files req = Inr (filename, secure_name, file_path, stored) \<and>
    os_path_getsize e stored file_path = Inl x \<longrightarrow>
      upload_file e files req =
        (cleanup_file e stored file_path, Rejected 400 (FileSizeExceeds 0)))"
proof -
  have "upload_file e files req =
        (cleanup_file e stored file_path, Rejected 400 (FileSizeExceeds 0))"
    if rs: "receive_and_store e files req = Inr (filename, secure_name, file_path, stored)"
      and gs: "os_path_getsize e stored file_path = Inl x"
  proof -
    from gs have v: "validate_file_size e stored file_path MAX_FILE_SIZE = (False, 0)"
      by (simp add: validate_file_size_def)
    then have "\<not> fst (validate_file_size e stored file_path MAX_FILE_SIZE)" by simp
    from validate_stored_size_rejection [OF this] v show ?thesis
      by (simp add: upload_file_stored [OF rs])
  qed
  then show ?thesis by (simp add: validate_file_size_def)
qed

lemma run_photo_stored:
  "receive_and_store e0 Map.empty req_photo =
     Inr (''PHOTO.JPG'', ''PHOTO_20240309_140507_031425364758697a.JPG'',
          ''/srv/app/uploads/PHOTO_20240309_140507_031425364758697a.JPG'',
          [''/srv/app/uploads/PHOTO_20240309_140507_031425364758697a.JPG'' \<mapsto> [255, 216, 255, 1]])"
  if "e0 = env_ok \<or> e0 = env_locked \<or> e0 = env_blind \<or> e0 = env_nostat"
proof (rule receive_and_store_eq)
  show "request_files req_photo = Inr (Some (''PHOTO.JPG'', [255, 216, 255, 1]))"
    by code_simp
  show "''PHOTO.JPG'' \<noteq> []" by simp
  show "py_lower (snd (splitext ''PHOTO.JPG'')) \<in> ALLOWED_EXTENSIONS" by code_simp
  have "generate_secure_filename env_ok ''PHOTO.JPG'' = ''PHOTO_20240309_140507_031425364758697a.JPG''"
       "generate_secure_filename env_locked ''PHOTO.JPG'' = ''PHOTO_20240309_140507_031425364758697a.JPG''"
       "generate_secure_filename env_blind ''PHOTO.JPG'' = ''PHOTO_20240309_140507_031425364758697a.JPG''"
       "generate_secure_filename env_nostat ''PHOTO.JPG'' = ''PHOTO_20240309_140507_031425364758697a.JPG''"
    by code_simp+
  with that show "generate_secure_filename e0 ''PHOTO.JPG'' = ''PHOTO_20240309_140507_031425364758697a.JPG''"
    by auto
  have "os_path_join (upload_folder env_ok) ''PHOTO_20240309_140507_031425364758697a.JPG'' =
          ''/srv/app/uploads/PHOTO_20240309_140507_031425364758697a.JPG''"
       "os_path_join (upload_folder env_locked) ''PHOTO_20240309_140507_031425364758697a.JPG'' =
          ''/srv/app/uploads/PHOTO_20240309_140507_031425364758697a.JPG''"
       "os_path_join (upload_folder env_blind) ''PHOTO_20240309_140507_031425364758697a.JPG'' =
          ''/srv/app/uploads/PHOTO_20240309_140507_031425364758697a.JPG''"
       "os_path_join (upload_folder env_nostat) ''PHOTO_20240309_140507_031425364758697a.JPG'' =
          ''/srv/app/uploads/PHOTO_20240309_140507_031425364758697a.JPG''"
    by code_simp+
  with that show "os_path_join (upload_folder e0) ''PHOTO_20240309_140507_031425364758697a.JPG'' =
          ''/srv/app/uploads/PHOTO_20240309_140507_031425364758697a.JPG''"
    by auto
  have "is_path_safe env_ok ''/srv/app/uploads/PHOTO_20240309_140507_031425364758697a.JPG'' (upload_folder env_ok)"
       "is_path_safe env_locked ''/srv/app/uploads/PHOTO_20240309_140507_031425364758697a.JPG'' (upload_folder env_locked)"
       "is_path_safe env_blind ''/srv/app/uploads/PHOTO_20240309_140507_031425364758697a.JPG'' (upload_folder env_blind)"
       "is_path_safe env_nostat ''/srv/app/uploads/PHOTO_20240309_140507_031425364758697a.JPG'' (upload_folder env_nostat)"
    by code_simp+
  with that show "is_path_safe e0 ''/srv/app/uploads/PHOTO_20240309_140507_031425364758697a.JPG'' (upload_folder e0)"
    by auto
  from that show "\<not> fault e0 OpSave ''/srv/app/uploads/PHOTO_20240309_140507_031425364758697a.JPG''"
    by (auto simp: env_ok_def env_locked_def env_blind_def env_nostat_def)
qed

theorem validate_file_size_boundary_witness:
  "validate_file_size env_ok [''/srv/app/uploads/a.txt'' \<mapsto> [104, 105, 10]]
     ''/srv/app/uploads/a.txt'' 3 = (True, 3) \<and>
   validate_file_size env_ok [''/srv/app/uploads/a.txt'' \<mapsto> [104, 105, 10]]
     ''/srv/app/uploads/a.txt'' 2 = (False, 3) \<and>
   validate_file_size env_ok Map.empty ''/srv/app/uploads/a.txt'' 3 = (False, 0) \<and>
   snd (upload_file env_nostat Map.empty req_photo) = Rejected 400 (FileSizeExceeds 0)"
proof -
  let ?fs = "[''/srv/app/uploads/a.txt'' \<mapsto> [104, 105, 10 :: 8 word]]"
  let ?p = "''/srv/app/uploads/a.txt''"
  let ?q = "''/srv/app/uploads/PHOTO_20240309_140507_031425364758697a.JPG''"
  have g1: "os_path_getsize env_ok ?fs ?p = Inr 3" by code_simp
  have g2: "os_path_getsize env_ok Map.empty ?p = Inl OSError" by code_simp
  have g3: "os_path_getsize env_nostat [?q \<mapsto> [255, 216, 255, 1]] ?q = Inl OSError" by code_simp
  have rs: "receive_and_store env_nostat Map.empty req_photo =
     Inr (''PHOTO.JPG'', ''PHOTO_20240309_140507_031425364758697a.JPG'', ?q, [?q \<mapsto> [255, 216, 255, 1]])"
    by (rule run_photo_stored) simp
  note t1 = validate_file_size_boundary
    [where e = env_ok and files = ?fs and p = ?p and n = 3 and max_size = 3]
  note t2 = validate_file_size_boundary
    [where e = env_ok and files = ?fs and p = ?p and n = 3 and max_size = 2]
  note t3 = validate_file_size_boundary
    [where e = env_ok and files = Map.empty and p = ?p and x = OSError and max_size = 3]
  note t4 = validate_file_size_boundary
    [where e = env_nostat and files = Map.empty and x = OSError and req = req_photo and
      filename = "''PHOTO.JPG''" and secure_name = "''PHOTO_20240309_140507_031425364758697a.JPG''" and
      file_path = ?q and stored = "[?q \<mapsto> [255, 216, 255, 1]]"]
  from t1 [THEN conjunct2, THEN conjunct1, THEN mp, OF g1]
    t2 [THEN conjunct1, THEN mp, OF g1]
    t3 [THEN conjunct2, THEN conjunct2, THEN conjunct1, THEN mp, OF g2]
    t4 [THEN conjunct2, THEN conjunct2, THEN conjunct2, THEN mp, OF conjI, OF rs g3]
  show ?thesis by simp
qed

subsection \<open>IntegrityHasher\<close>

lemma hash_loop_all: "hash_loop f h = h @ f"
proof (induction f h rule: hash_loop.induct)
  case (1 f h)
  show ?case
  proof (cases "take 4096 f = []")
    case True
    then have "f = []" by simp
    then show ?thesis by (subst hash_loop.simps) simp
  next
    case False
    with "1" [OF refl False] show ?thesis
      by (subst hash_loop.simps) (simp add: hash_update_def)
  qed
qed

lemma hex_digit_lower: "n < 16 \<Longrightarrow> hex_digit n \<in> set ''0123456789abcdef''"
proof -
  have "\<forall>k \<in> set [0..<16]. hex_digit k \<in> set ''0123456789abcdef''"
    by code_simp
  then show "n < 16 \<Longrightarrow> hex_digit n \<in> set ''0123456789abcdef''" by simp
qed

lemma unat_byte_div: "unat (b :: 8 word) div 16 < 16"
proof -
  have "unat b < 2 ^ 8" using unsigned_less [of b, where ?'a = nat] by simp
  then show ?thesis by simp
qed

lemma hexlify_lower: "set (hexlify content) \<subseteq> set ''0123456789abcdef''"
  unfolding hexlify_def
  using hex_digit_lower unat_byte_div by (induction content) auto

lemma calculate_file_hash_content:
  "calculate_file_hash e files p algorithm =
     (case files p of
        None \<Rightarrow> Inl OSError
      | Some content \<Rightarrow>
          if fault e OpOpen p then Inl OSError
          else Inr (hexlify (digest e algorithm content)))"
  by (simp add: calculate_file_hash_def open_rb_def hexdigest_def hash_loop_all
      split: option.splits)

lemma upload_accepted_hash:
  assumes "snd (upload_file e files req) = Accepted st d"
  shows "\<exists>filename content. file_field req = Some (filename, content) \<and>
     fst (upload_file e files req)
       (os_path_join (upload_folder e) (generate_secure_filename e filename)) = Some content \<and>
     data_url d = ''/api/files/'' @ generate_secure_filename e filename \<and>
     calculate_file_hash e (fst (upload_file e files req))
       (os_path_join (upload_folder e) (generate_secure_filename e filename)) ''sha256'' =
       Inr (data_hash d) \<and>
     data_hash d = hexlify (digest e ''sha256'' content)"
proof -
  from assms have "upload_file e files req = (fst (upload_file e files req), Accepted st d)"
    by (metis prod.collapse)
  from upload_file_AcceptedD [OF this] obtain filename secure_name file_path where
    rs: "receive_and_store e files req =
           Inr (filename, secure_name, file_path, fst (upload_file e files req))" and
    vs: "validate_stored e (fst (upload_file e files req)) filename secure_name file_path =
           Inr (fst (upload_file e files req), Accepted st d)"
    by blast
  from receive_and_store_InrD(1) [OF rs] obtain content where
    ff: "file_field req = Some (filename, content)" and
    st: "fst (upload_file e files req) = files(file_path \<mapsto> content)" by blast
  from st have at: "fst (upload_file e files req) file_path = Some content" by simp
  note sn = receive_and_store_InrD(4) [OF rs]
  note fp = receive_and_store_InrD(5) [OF rs]
  note h = validate_stored_AcceptedD(5) [OF vs]
  from h at have "data_hash d = hexlify (digest e ''sha256'' content)"
    by (simp add: calculate_file_hash_content split: if_splits)
  with ff at h validate_stored_AcceptedD(6) [OF vs] show ?thesis
    unfolding fp sn by blast
qed

text \<open>
  C7. The hash in an acceptance is the lower-case hexadecimal digest, by the hash function
  the program names, of the whole content stored at the generated path, which
  \<^verbatim>\<open>calculate_file_hash\<close> reads in blocks of 4096 bytes. Computing the hash again from the
  stored file gives the digest that was reported.
\<close>

theorem reported_hash_of_stored_content:
  assumes "snd (upload_file e files req) = Accepted st d"
  shows "\<exists>filename content. file_field req = Some (filename, content) \<and>
     fst (upload_file e files req)
       (os_path_join (upload_folder e) (generate_secure_filename e filename)) = Some content \<and>
     data_url d = ''/api/files/'' @ generate_secure_filename e filename \<and>
     calculate_file_hash e (fst (upload_file e files req))
       (os_path_join (upload_folder e) (generate_secure_filename e filename)) ''sha256'' =
       Inr (data_hash d) \<and>
     hash_loop content [] = content \<and>
     data_hash d = hexlify (digest e ''sha256'' content) \<and>
     set (data_hash d) \<subseteq> set ''0123456789abcdef''"
proof -
  from upload_accepted_hash [OF assms] obtain filename content where
    "file_field req = Some (filename, content)"
    "fst (upload_file e files req)
       (os_path_join (upload_folder e) (generate_secure_filename e filename)) = Some content"
    "data_url d = ''/api/files/'' @ generate_secure_filename e filename"
    "calculate_file_hash e (fst (upload_file e files req))
       (os_path_join (upload_folder e) (generate_secure_filename e filename)) ''sha256'' =
       Inr (data_hash d)"
    "data_hash d = hexlify (digest e ''sha256'' content)"
    by blast
  moreover have "hash_loop content [] = content" by (simp add: hash_loop_all)
  moreover have "set (hexlify (digest e ''sha256'' content)) \<subseteq> set ''0123456789abcdef''"
    by (rule hexlify_lower)
  ultimately show ?thesis by metis
qed

theorem reported_hash_of_stored_content_witness:
  "\<exists>filename content. file_field req_photo = Some (filename, content) \<and>
     fst (upload_file env_ok Map.empty req_photo)
       (os_path_join (upload_folder env_ok) (generate_secure_filename env_ok filename)) =
       Some content \<and>
     calculate_file_hash env_ok (fst (upload_file env_ok Map.empty req_photo))
       (os_path_join (upload_folder env_ok) (generate_secure_filename env_ok filename)) ''sha256'' =
       Inr ''ffd8ff01'' \<and>
     ''ffd8ff01'' = hexlify (digest env_ok ''sha256'' content)"
proof -
  let ?d = "\<lparr>data_url = ''/api/files/PHOTO_20240309_140507_031425364758697a.JPG'',
      data_name = ''PHOTO.JPG'', data_size = 4, data_mime_type = ''image/jpeg'',
      data_hash = ''ffd8ff01''\<rparr>"
  have run: "snd (upload_file env_ok Map.empty req_photo) = Accepted 200 ?d"
    by code_simp
  from reported_hash_of_stored_content [OF run] show ?thesis
    by simp blast
qed

subsection \<open>TypeSniffer and cleanup\<close>

lemma run_fake_stored:
  "receive_and_store e0 Map.empty req_fake =
     Inr (''payload.jpg'', ''payload_20240309_140507_031425364758697a.jpg'',
          ''/srv/app/uploads/payload_20240309_140507_031425364758697a.jpg'',
          [''/srv/app/uploads/payload_20240309_140507_031425364758697a.jpg'' \<mapsto> [77, 90, 144, 0]])"
  if "e0 = env_ok \<or> e0 = env_locked \<or> e0 = env_blind"
proof (rule receive_and_store_eq)
  let ?n = "''payload_20240309_140507_031425364758697a.jpg''"
  let ?p = "''/srv/app/uploads/payload_20240309_140507_031425364758697a.jpg''"
  show "request_files req_fake = Inr (Some (''payload.jpg'', [77, 90, 144, 0]))"
    by code_simp
  show "''payload.jpg'' \<noteq> []" by simp
  show "py_lower (snd (splitext ''payload.jpg'')) \<in> ALLOWED_EXTENSIONS" by code_simp
  have "generate_secure_filename env_ok ''payload.jpg'' = ?n"
       "generate_secure_filename env_locked ''payload.jpg'' = ?n"
       "generate_secure_filename env_blind ''payload.jpg'' = ?n"
    by code_simp+
  with that show "generate_secure_filename e0 ''payload.jpg'' = ?n"
    by auto
  have "os_path_join (upload_folder env_ok) ?n = ?p"
       "os_path_join (upload_folder env_locked) ?n = ?p"
       "os_path_join (upload_folder env_blind) ?n = ?p"
    by code_simp+
  with that show "os_path_join (upload_folder e0) ?n = ?p"
    by auto
  have "is_path_safe env_ok ?p (upload_folder env_ok)"
       "is_path_safe env_locked ?p (upload_folder env_locked)"
       "is_path_safe env_blind ?p (upload_folder env_blind)"
    by code_simp+
  with that show "is_path_safe e0 ?p (upload_folder e0)"
    by auto
  from that show "\<not> fault e0 OpSave ?p"
    by (auto simp: env_ok_def env_locked_def env_blind_def)
qed

lemma get_file_magic_type_None:
  "(get_file_magic_type e files p = None) = (\<exists>x. magic_from_file e files p = Inl x)"
  by (simp add: get_file_magic_type_def split: sum.splits)

lemma get_file_magic_type_Some:
  "(get_file_magic_type e files p = Some m) = (magic_from_file e files p = Inr m)"
  by (simp add: get_file_magic_type_def split: sum.splits)

lemma validate_stored_unsniffed:
  assumes "fst (validate_file_size e stored file_path MAX_FILE_SIZE)"
    and "get_file_magic_type e stored file_path = None \<or>
         get_file_magic_type e stored file_path = Some []"
  shows "validate_stored e stored filename secure_name file_path =
           Inr (cleanup_file e stored file_path, Rejected 400 CouldNotVerifyFileType)"
  using assms
  by (cases "validate_file_size e stored file_path MAX_FILE_SIZE")
    (auto simp: validate_stored_def)

lemma run_notes_stored:
  "receive_and_store env_ok Map.empty req_notes =
     Inr (''notes.txt'', ''notes_20240309_140507_031425364758697a.txt'',
          ''/srv/app/uploads/notes_20240309_140507_031425364758697a.txt'',
          [''/srv/app/uploads/notes_20240309_140507_031425364758697a.txt'' \<mapsto> [104, 105, 10]])"
proof (rule receive_and_store_eq)
  let ?n = "''notes_20240309_140507_031425364758697a.txt''"
  let ?p = "''/srv/app/uploads/notes_20240309_140507_031425364758697a.txt''"
  show "request_files req_notes = Inr (Some (''notes.txt'', [104, 105, 10]))"
    by code_simp
  show "''notes.txt'' \<noteq> []" by simp
  show "py_lower (snd (splitext ''notes.txt'')) \<in> ALLOWED_EXTENSIONS" by code_simp
  show "generate_secure_filename env_ok ''notes.txt'' = ?n" by code_simp
  show "os_path_join (upload_folder env_ok) ?n = ?p" by code_simp
  show "is_path_safe env_ok ?p (upload_folder env_ok)" by code_simp
  show "\<not> fault env_ok OpSave ?p" by (simp add: env_ok_def)
qed

lemma validate_stored_sniffed:
  assumes "fst (validate_file_size e stored file_path MAX_FILE_SIZE)"
    and "get_file_magic_type e stored file_path = Some m" and "m \<noteq> []"
  shows "validate_stored e stored filename secure_name file_path =
     (if \<not> fst (is_allowed_file_type filename m) then
        Inr (cleanup_file e stored file_path,
             Rejected 400 (InvalidFileType (snd (is_allowed_file_type filename m))))
      else
        case calculate_file_hash e stored file_path ''sha256'' of
          Inl x \<Rightarrow> Inl x
        | Inr file_hash \<Rightarrow>
            Inr (stored, Accepted 200
              \<lparr>data_url = ''/api/files/'' @ secure_name, data_name = filename,
               data_size = snd (validate_file_size e stored file_path MAX_FILE_SIZE),
               data_mime_type = m, data_hash = file_hash\<rparr>))"
  using assms
  by (cases "validate_file_size e stored file_path MAX_FILE_SIZE";
      cases "is_allowed_file_type filename m")
    (auto simp: validate_stored_def scan_file_for_viruses_def split: sum.splits)

lemma upload_file_sniffed:
  assumes rs: "receive_and_store e files req = Inr (filename, secure_name, file_path, stored)"
    and sz: "fst (validate_file_size e stored file_path MAX_FILE_SIZE)"
    and mg: "magic_from_file e stored file_path = Inr m" and ne: "m \<noteq> []"
  shows "snd (upload_file e files req) \<noteq> Rejected 400 CouldNotVerifyFileType"
    and "is_allowed_file_type filename m = (False, r) \<Longrightarrow>
           upload_file e files req =
             (cleanup_file e stored file_path, Rejected 400 (InvalidFileType r))"
    and "is_allowed_file_type filename m = (True, None) \<Longrightarrow> \<not> fault e OpOpen file_path \<Longrightarrow>
           \<exists>d. upload_file e files req = (stored, Accepted 200 d) \<and> data_mime_type d = m"
proof -
  from mg have g: "get_file_magic_type e stored file_path = Some m"
    by (simp add: get_file_magic_type_def)
  note vs = validate_stored_sniffed [OF sz g ne, of filename secure_name]
  note up = upload_file_stored [OF rs]
  show "snd (upload_file e files req) \<noteq> Rejected 400 CouldNotVerifyFileType"
    unfolding up vs by (auto simp: handle_exception_def split: sum.splits exn.splits)
  show "upload_file e files req =
     (cleanup_file e stored file_path, Rejected 400 (InvalidFileType r))"
    if "is_allowed_file_type filename m = (False, r)"
    unfolding up vs using that by simp
  show "\<exists>d. upload_file e files req = (stored, Accepted 200 d) \<and> data_mime_type d = m"
    if ok: "is_allowed_file_type filename m = (True, None)" and op: "\<not> fault e OpOpen file_path"
  proof -
    from receive_and_store_InrD(1) [OF rs] obtain content where
      "stored file_path = Some content" by auto
    with op have "calculate_file_hash e stored file_path ''sha256'' =
        Inr (hexlify (digest e ''sha256'' content))"
      by (simp add: calculate_file_hash_content)
    then show ?thesis unfolding up vs using ok by simp
  qed
qed

text \<open>
  C8, as the program has it. \<^verbatim>\<open>get_file_magic_type\<close> returns \<open>None\<close> exactly when the
  library call raises. When it does, or when the library answers with an empty string,
  an upload that has passed the size check is rejected with 400
  \<^verbatim>\<open>Could not verify file type\<close> after \<^verbatim>\<open>cleanup_file\<close>. Any other answer of the library,
  also the generic type it gives to content whose signature it does not recognise, is
  passed on unchanged: the upload is then not rejected as unverifiable, the type policy
  decides, and the upload is accepted when that type is allowed for the extension.
\<close>

theorem sniffer_passes_library_answer:
  assumes "receive_and_store e files req = Inr (filename, secure_name, file_path, stored)"
    and "fst (validate_file_size e stored file_path MAX_FILE_SIZE)"
  shows "(get_file_magic_type e stored file_path = None) =
           (\<exists>x. magic_from_file e stored file_path = Inl x) \<and>
         (magic_from_file e stored file_path = Inl x \<or>
          magic_from_file e stored file_path = Inr [] \<longrightarrow>
            upload_file e files req =
              (cleanup_file e stored file_path, Rejected 400 CouldNotVerifyFileType) \<and>
            (\<not> fault e OpRemove file_path \<longrightarrow>
               fst (upload_file e files req) file_path = None)) \<and>
         (magic_from_file e stored file_path = Inr m \<and> m \<noteq> [] \<longrightarrow>
            get_file_magic_type e stored file_path = Some m \<and>
            snd (upload_file e files req) \<noteq> Rejected 400 CouldNotVerifyFileType \<and>
            (\<forall>r. is_allowed_file_type filename m = (False, r) \<longrightarrow>
               upload_file e files req =
                 (cleanup_file e stored file_path, Rejected 400 (InvalidFileType r))) \<and>
            (is_allowed_file_type filename m = (True, None) \<and> \<not> fault e OpOpen file_path \<longrightarrow>
               (\<exists>d. upload_file e files req = (stored, Accepted 200 d) \<and>
                  data_mime_type d = m)))"
proof -
  have a: "upload_file e files req =
        (cleanup_file e stored file_path, Rejected 400 CouldNotVerifyFileType) \<and>
      (\<not> fault e OpRemove file_path \<longrightarrow> fst (upload_file e files req) file_path = None)"
    if mg: "magic_from_file e stored file_path = Inl x \<or>
            magic_from_file e stored file_path = Inr []"
  proof -
    from mg have "get_file_magic_type e stored file_path = None \<or>
         get_file_magic_type e stored file_path = Some []"
      by (auto simp: get_file_magic_type_def)
    from validate_stored_unsniffed [OF assms(2) this]
    have "upload_file e files req =
        (cleanup_file e stored file_path, Rejected 400 CouldNotVerifyFileType)"
      by (simp add: upload_file_stored [OF assms(1)])
    then show ?thesis by (simp add: cleanup_file_removed)
  qed
  have b: "get_file_magic_type e stored file_path = Some m"
    if "magic_from_file e stored file_path = Inr m"
    using that by (simp add: get_file_magic_type_def)
  show ?thesis
    using a b get_file_magic_type_None [of e stored file_path]
      upload_file_sniffed [OF assms, of m]
    by blast
qed

theorem sniffer_passes_library_answer_witness:
  "snd (upload_file env_blind Map.empty req_photo) = Rejected 400 CouldNotVerifyFileType \<and>
   fst (upload_file env_blind Map.empty req_photo)
     ''/srv/app/uploads/PHOTO_20240309_140507_031425364758697a.JPG'' = None \<and>
   snd (upload_file env_ok Map.empty req_fake) =
     Rejected 400 (InvalidFileType (Some ''MIME type application/octet-stream not allowed'')) \<and>
   (\<exists>d. snd (upload_file env_ok Map.empty req_notes) = Accepted 200 d \<and>
      data_mime_type d = ''text/plain'')"
proof -
  let ?q = "''/srv/app/uploads/PHOTO_20240309_140507_031425364758697a.JPG''"
  let ?st = "[?q \<mapsto> [255, 216, 255, 1 :: 8 word]]"
  let ?p = "''/srv/app/uploads/payload_20240309_140507_031425364758697a.jpg''"
  let ?sp = "[?p \<mapsto> [77, 90, 144, 0 :: 8 word]]"
  let ?t = "''/srv/app/uploads/notes_20240309_140507_031425364758697a.txt''"
  let ?stt = "[?t \<mapsto> [104, 105, 10 :: 8 word]]"
  let ?r = "Some ''MIME type application/octet-stream not allowed''"
  have rs1: "receive_and_store env_blind Map.empty req_photo =
     Inr (''PHOTO.JPG'', ''PHOTO_20240309_140507_031425364758697a.JPG'', ?q, ?st)"
    by (rule run_photo_stored) simp
  have sz1: "fst (validate_file_size env_blind ?st ?q MAX_FILE_SIZE)" by code_simp
  have mg1: "magic_from_file env_blind ?st ?q = Inl MagicException" by code_simp
  have rm1: "\<not> fault env_blind OpRemove ?q" by code_simp
  note t1 = sniffer_passes_library_answer [OF rs1 sz1, where x = MagicException,
      THEN conjunct2, THEN conjunct1, THEN mp, OF disjI1, OF mg1]
  from t1 [THEN conjunct1]
  have a: "snd (upload_file env_blind Map.empty req_photo) =
      Rejected 400 CouldNotVerifyFileType" by simp
  note b = t1 [THEN conjunct2, THEN mp, OF rm1]
  have rs2: "receive_and_store env_ok Map.empty req_fake =
     Inr (''payload.jpg'', ''payload_20240309_140507_031425364758697a.jpg'', ?p, ?sp)"
    by (rule run_fake_stored) simp
  have sz2: "fst (validate_file_size env_ok ?sp ?p MAX_FILE_SIZE)" by code_simp
  have mg2: "magic_from_file env_ok ?sp ?p = Inr ''application/octet-stream''" by code_simp
  have ne2: "''application/octet-stream'' \<noteq> []" by simp
  have pol2: "is_allowed_file_type ''payload.jpg'' ''application/octet-stream'' = (False, ?r)"
    by code_simp
  note t2 = sniffer_passes_library_answer [OF rs2 sz2, where m = "''application/octet-stream''",
      THEN conjunct2, THEN conjunct2, THEN mp, OF conjI, OF mg2 ne2]
  from t2 [THEN conjunct2, THEN conjunct2, THEN conjunct1, THEN spec, THEN mp, OF pol2]
  have c: "snd (upload_file env_ok Map.empty req_fake) = Rejected 400 (InvalidFileType ?r)"
    by simp
  have sz3: "fst (validate_file_size env_ok ?stt ?t MAX_FILE_SIZE)" by code_simp
  have mg3: "magic_from_file env_ok ?stt ?t = Inr ''text/plain''" by code_simp
  have ne3: "''text/plain'' \<noteq> []" by simp
  have pol3: "is_allowed_file_type ''notes.txt'' ''text/plain'' = (True, None)" by code_simp
  have op3: "\<not> fault env_ok OpOpen ?t" by code_simp
  note t3 = sniffer_passes_library_answer [OF run_notes_stored sz3, where m = "''text/plain''",
      THEN conjunct2, THEN conjunct2, THEN mp, OF conjI, OF mg3 ne3]
  from t3 [THEN conjunct2, THEN conjunct2, THEN conjunct2, THEN mp, OF conjI, OF pol3 op3]
  have d: "\<exists>d. snd (upload_file env_ok Map.empty req_notes) = Accepted 200 d \<and>
      data_mime_type d = ''text/plain''"
    by auto
  from a b c d show ?thesis by blast
qed

theorem unrecognised_signature_keeps_library_type:
  "libmagic env_ok [77, 90, 144, 0] = ''application/octet-stream'' \<and>
   get_file_magic_type env_ok
     [''/srv/app/uploads/payload_20240309_140507_031425364758697a.jpg'' \<mapsto> [77, 90, 144, 0]]
     ''/srv/app/uploads/payload_20240309_140507_031425364758697a.jpg'' =
     Some ''application/octet-stream'' \<and>
   snd (upload_file env_ok Map.empty req_fake) =
     Rejected 400 (InvalidFileType (Some ''MIME type application/octet-stream not allowed'')) \<and>
   libmagic env_ok [104, 105, 10] = ''text/plain'' \<and>
   snd (upload_file env_ok Map.empty req_notes) =
     Accepted 200
       \<lparr>data_url = ''/api/files/notes_20240309_140507_031425364758697a.txt'',
        data_name = ''notes.txt'', data_size = 3, data_mime_type = ''text/plain'',
        data_hash = ''68690a''\<rparr>"
  by code_simp

subsection \<open>Cleanup on rejection\<close>


lemma receive_and_store_written:
  assumes "receive_and_store e files req = Inr (filename, secure_name, file_path, stored)"
  shows "\<exists>content. file_field req = Some (filename, content) \<and> stored file_path = Some content"
  using receive_and_store_InrD(1) [OF assms] by auto




subsection \<open>Oversize uploads\<close>








subsection \<open>NameSanitizer\<close>

lemma safe_char_hex: "c \<in> set ''0123456789abcdef'' \<Longrightarrow> safe_char c"
proof -
  have "\<forall>c \<in> set ''0123456789abcdef''. safe_char c" by code_simp
  then show "c \<in> set ''0123456789abcdef'' \<Longrightarrow> safe_char c" by blast
qed

lemma digit_char_decimal: "digit_char d \<in> set ''0123456789''"
proof -
  have "\<forall>k \<in> set [0..<10]. char_of (48 + k) \<in> set ''0123456789''" by code_simp
  moreover have "d mod 10 \<in> set [0..<10]" by simp
  ultimately show ?thesis unfolding digit_char_def by blast
qed

lemma safe_char_digit: "safe_char (digit_char d)"
  by (rule safe_char_hex) (use digit_char_decimal [of d] in auto)

lemma strftime_length: "length (strftime t) = 15"
  by (simp add: strftime_def four_digits_def two_digits_def)

lemma strftime_safe: "c \<in> set (strftime t) \<Longrightarrow> safe_char c"
  by (auto simp: strftime_def four_digits_def two_digits_def safe_char_digit)
    (simp add: safe_char_def)

lemma hexlify_length: "length (hexlify content) = 2 * length content"
  by (induction content) (simp_all add: hexlify_def)

lemma token_bytes_length: "length (token_bytes e n) = n"
  by (simp add: token_bytes_def)

lemma token_hex_safe: "c \<in> set (token_hex e n) \<Longrightarrow> safe_char c"
  using hexlify_lower [of "token_bytes e n"] safe_char_hex
  by (auto simp: token_hex_def)

lemma py_strip_subset: "set (py_strip chars s) \<subseteq> set s"
proof -
  have "set (py_strip chars s) \<subseteq> set (dropWhile (\<lambda>c. c \<in> set chars) s)"
    unfolding py_strip_def using set_dropWhileD by fastforce
  also have "\<dots> \<subseteq> set s" using set_dropWhileD by fastforce
  finally show ?thesis .
qed

lemma secure_filename_safe: "c \<in> set (secure_filename decomp filename) \<Longrightarrow> safe_char c"
  using py_strip_subset [of "''._''"] by (fastforce simp: secure_filename_def Let_def)

lemma rfind_from_lower: "best \<le> i \<Longrightarrow> best \<le> rfind_from c xs i best"
proof (induction xs arbitrary: i best)
  case Nil
  then show ?case by simp
next
  case (Cons x xs)
  have "(if x = c then i else best) \<le> rfind_from c xs (i + 1) (if x = c then i else best)"
    by (rule Cons.IH) (use Cons.prems in auto)
  with Cons.prems show ?case by auto
qed

lemma rfind_lower: "- 1 \<le> rfind s c"
  unfolding rfind_def by (rule rfind_from_lower) simp

lemma splitext_append: "fst (splitext p) @ snd (splitext p) = p"
  by (simp add: splitext_def Let_def)

lemma splitext_name_empty: "fst (splitext p) = [] \<Longrightarrow> p = []"
proof (rule ccontr)
  assume e: "fst (splitext p) = []" and ne: "p \<noteq> []"
  let ?s = "rfind p CHR ''/''" and ?d = "rfind p CHR ''.''"
  let ?between = "take (nat (?d - (?s + 1))) (drop (nat (?s + 1)) p)"
  from e ne have c: "?d > ?s \<and> \<not> list_all (\<lambda>c. c = CHR ''.'') ?between"
    and t: "take (nat ?d) p = []"
    by (auto simp: splitext_def Let_def split: if_splits)
  from c have "?between \<noteq> []" by auto
  then have "0 < nat (?d - (?s + 1))" by auto
  with rfind_lower [of p "CHR ''/''"] have "0 < nat ?d" by linarith
  with t ne show False by simp
qed

lemma generate_secure_filename_parts:
  "generate_secure_filename e filename =
     (if secure_filename (unicode_fold e) filename = [] then ''file''
      else take 50 (fst (splitext (secure_filename (unicode_fold e) filename)))) @
     ''_'' @ strftime (now e) @ ''_'' @ token_hex e 8 @
     snd (splitext (secure_filename (unicode_fold e) filename))"
proof (cases "secure_filename (unicode_fold e) filename = []")
  case True
  then show ?thesis
    by (simp add: generate_secure_filename_def Let_def splitext_def rfind_def)
next
  case False
  with splitext_name_empty have "fst (splitext (secure_filename (unicode_fold e) filename)) \<noteq> []"
    by blast
  with False show ?thesis
    by (simp add: generate_secure_filename_def Let_def case_prod_beta)
qed

lemma generate_secure_filename_safe:
  assumes "c \<in> set (generate_secure_filename e filename)"
  shows "safe_char c"
proof -
  let ?s = "secure_filename (unicode_fold e) filename"
  have parts: "set (fst (splitext ?s)) \<union> set (snd (splitext ?s)) = set ?s"
    using splitext_append [of ?s] by (metis set_append)
  have f: "\<forall>c \<in> set ''file_''. safe_char c" by code_simp
  from assms consider "c \<in> set ''file_''" | "c \<in> set (take 50 (fst (splitext ?s)))"
    | "c \<in> set (strftime (now e))" | "c \<in> set (token_hex e 8)" | "c \<in> set (snd (splitext ?s))"
    unfolding generate_secure_filename_parts by (auto split: if_splits)
  then show ?thesis
  proof cases
    case 1
    with f show ?thesis by blast
  next
    case 2
    then have "c \<in> set ?s" using parts by (auto dest: in_set_takeD)
    then show ?thesis by (rule secure_filename_safe)
  next
    case 3
    then show ?thesis by (rule strftime_safe)
  next
    case 4
    then show ?thesis by (rule token_hex_safe)
  next
    case 5
    then have "c \<in> set ?s" using parts by auto
    then show ?thesis by (rule secure_filename_safe)
  qed
qed

lemma generate_secure_filename_underscore:
  "CHR ''_'' \<in> set (generate_secure_filename e filename)"
  unfolding generate_secure_filename_parts by simp


lemma hex_digit_inj:
  assumes "m < 16" and "n < 16" and "hex_digit m = hex_digit n"
  shows "m = n"
proof -
  from assms(3) have "(of_char (hex_digit m) :: nat) = of_char (hex_digit n)" by simp
  with assms(1,2) show ?thesis
    by (auto simp: hex_digit_def split: if_splits)
qed

lemma hexlify_inj: "hexlify xs = hexlify ys \<Longrightarrow> xs = ys"
proof (induction xs arbitrary: ys)
  case Nil
  then show ?case by (cases ys) (simp_all add: hexlify_def)
next
  case (Cons x xs)
  then obtain y ys' where ys: "ys = y # ys'" by (cases ys) (auto simp: hexlify_def)
  from Cons.prems ys have
    hi: "hex_digit (unat x div 16) = hex_digit (unat y div 16)" and
    lo: "hex_digit (unat x mod 16) = hex_digit (unat y mod 16)" and
    rest: "hexlify xs = hexlify ys'"
    by (simp_all add: hexlify_def)
  from hi have "unat x div 16 = unat y div 16"
    by (rule hex_digit_inj [rotated 2]) (rule unat_byte_div)+
  moreover from lo have "unat x mod 16 = unat y mod 16"
    by (rule hex_digit_inj [rotated 2]) simp_all
  ultimately have "unat x = unat y" by (metis div_mult_mod_eq)
  then have "x = y" by (simp add: word_eq_iff_unsigned [where ?'a = nat])
  with Cons.IH [OF rest] ys show ?case by simp
qed

lemma framed_eq:
  assumes "length t1 = length t2"
  shows "(b @ u @ t1 @ u @ h1 @ x = b @ u @ t2 @ u @ h2 @ x) = (t1 = t2 \<and> h1 = h2)"
  using assms by simp

lemma generate_secure_filename_eq_iff:
  assumes "unicode_fold e1 = unicode_fold e2"
  shows "(generate_secure_filename e1 filename = generate_secure_filename e2 filename) =
           (strftime (now e1) = strftime (now e2) \<and> token_bytes e1 8 = token_bytes e2 8)"
proof -
  have len: "length (strftime (now e1)) = length (strftime (now e2))"
    by (simp add: strftime_length)
  have tok: "(token_hex e1 8 = token_hex e2 8) = (token_bytes e1 8 = token_bytes e2 8)"
    unfolding token_hex_def by (auto dest: hexlify_inj)
  show ?thesis
    unfolding generate_secure_filename_parts assms framed_eq [OF len] tok ..
qed

text \<open>
  C4, as the program has it. \<^verbatim>\<open>generate_secure_filename\<close> sanitizes the name with
  \<^verbatim>\<open>secure_filename\<close>, which turns path separators into word breaks and keeps only
  \<open>[A-Za-z0-9_.-]\<close>, so the result has no separator; splits the sanitized name into base
  and extension; keeps at most 50 characters of the base, or takes \<^verbatim>\<open>file\<close> when the
  sanitized name is empty; appends \<open>_\<close>, the timestamp (15 characters), \<open>_\<close> and the
  16 lower-case hexadecimal digits of 8 random bytes; and puts back the extension of the
  sanitized name as it is, in the case it came in.
\<close>

theorem generate_secure_filename_shape:
  "(let safe_name = secure_filename (unicode_fold e) filename;
        name = fst (splitext safe_name);
        ext = snd (splitext safe_name);
        base = (if safe_name = [] then ''file'' else take 50 name);
        token = hexlify (token_bytes e 8)
    in generate_secure_filename e filename =
         base @ ''_'' @ strftime (now e) @ ''_'' @ token @ ext \<and>
       name @ ext = safe_name \<and>
       CHR ''/'' \<notin> set (generate_secure_filename e filename) \<and>
       set safe_name \<subseteq> {c. safe_char c} \<and>
       0 < length base \<and> length base \<le> 50 \<and>
       length (strftime (now e)) = 15 \<and>
       length (token_bytes e 8) = 8 \<and> length token = 16 \<and>
       set token \<subseteq> set ''0123456789abcdef'')"
proof -
  let ?s = "secure_filename (unicode_fold e) filename"
  have "\<not> safe_char CHR ''/''" by code_simp
  then have slash: "CHR ''/'' \<notin> set (generate_secure_filename e filename)"
    using generate_secure_filename_safe by blast
  have base: "0 < length (if ?s = [] then ''file'' else take 50 (fst (splitext ?s)))"
    using splitext_name_empty [of ?s] by auto
  have base': "length (if ?s = [] then ''file'' else take 50 (fst (splitext ?s))) \<le> 50"
    by simp
  have safe: "set ?s \<subseteq> {c. safe_char c}"
    using secure_filename_safe by blast
  note parts = generate_secure_filename_parts [of e filename, unfolded token_hex_def]
  have tok: "length (hexlify (token_bytes e 8)) = 16"
    by (simp add: hexlify_length token_bytes_length)
  show ?thesis
    unfolding Let_def
    using parts splitext_append [of ?s] slash safe base base' strftime_length [of "now e"]
      token_bytes_length [of e 8] tok hexlify_lower [of "token_bytes e 8"]
    by (intro conjI)
qed

theorem generate_secure_filename_shape_witness:
  "generate_secure_filename env_ok ''../../My Report.final.PDF'' =
     ''My_Report.final'' @ ''_'' @ ''20240309_140507'' @ ''_'' @ ''031425364758697a'' @ ''.PDF'' \<and>
   generate_secure_filename env_ok ''///'' =
     ''file'' @ ''_'' @ ''20240309_140507'' @ ''_'' @ ''031425364758697a'' @ []"
proof -
  have a: "secure_filename (unicode_fold env_ok) ''../../My Report.final.PDF'' =
      ''My_Report.final.PDF''" by code_simp
  have b: "splitext ''My_Report.final.PDF'' = (''My_Report.final'', ''.PDF'')" by code_simp
  have c: "strftime (now env_ok) = ''20240309_140507''" by code_simp
  have d: "hexlify (token_bytes env_ok 8) = ''031425364758697a''" by code_simp
  have a': "secure_filename (unicode_fold env_ok) ''///'' = []" by code_simp
  have b': "splitext [] = ([], [])" by code_simp
  from generate_secure_filename_shape [of env_ok "''../../My Report.final.PDF''", unfolded Let_def,
      THEN conjunct1]
    generate_secure_filename_shape [of env_ok "''///''", unfolded Let_def, THEN conjunct1]
  show ?thesis
    by (simp add: a b c d a' b')
qed

theorem extension_case_is_kept:
  "generate_secure_filename env_ok ''PHOTO.JPG'' = ''PHOTO_20240309_140507_031425364758697a.JPG'' \<and>
   snd (splitext (generate_secure_filename env_ok ''PHOTO.JPG'')) = ''.JPG'' \<and>
   snd (splitext (generate_secure_filename env_ok ''PHOTO.JPG'')) \<noteq> py_lower ''.JPG'' \<and>
   generate_secure_filename env_ok ''etc/passwd.txt'' =
     ''etc_passwd_20240309_140507_031425364758697a.txt''"
  by code_simp

lemma strftime_ignores_microsecond: "strftime (t\<lparr>microsecond := u\<rparr>) = strftime t"
  by (simp add: strftime_def)

lemma second_call_same_name:
  "generate_secure_filename env_again filename = generate_secure_filename env_ok filename"
proof -
  have n: "now env_again = (now env_ok)\<lparr>microsecond := 250000\<rparr>"
    by (simp add: env_again_def env_ok_def)
  have f: "unicode_fold env_again = unicode_fold env_ok"
    by (simp add: env_again_def)
  have t: "token_hex env_again 8 = token_hex env_ok 8"
    by (simp add: token_hex_def token_bytes_def env_again_def)
  show ?thesis
    unfolding generate_secure_filename_def n f t strftime_ignores_microsecond ..
qed

text \<open>
  C5, as the program has it. The generated name is never empty, \<open>.\<close> or \<open>..\<close>, and all its
  characters are in \<open>[A-Za-z0-9_.-]\<close>. Two calls on the same filename give the same name
  exactly when they read the same timestamp (to the second) and draw the same 8 random
  bytes; so the names differ as soon as the timestamps or the random bytes differ, and
  both names are safe either way.
\<close>

theorem generate_secure_filename_safe_distinct:
  "generate_secure_filename e filename \<notin> {[], ''.'', ''..''} \<and>
   (\<forall>c \<in> set (generate_secure_filename e filename). safe_char c) \<and>
   (unicode_fold e1 = unicode_fold e2 \<longrightarrow>
      (generate_secure_filename e1 filename \<noteq> generate_secure_filename e2 filename) =
        (strftime (now e1) \<noteq> strftime (now e2) \<or> token_bytes e1 8 \<noteq> token_bytes e2 8))"
proof -
  have "generate_secure_filename e filename \<notin> {[], ''.'', ''..''}"
    using generate_secure_filename_underscore [of e filename] by auto
  then show ?thesis
    using generate_secure_filename_safe generate_secure_filename_eq_iff by blast
qed

theorem generate_secure_filename_safe_distinct_witness:
  "list_all safe_char (generate_secure_filename env_ok ''report.pdf'') \<and>
   generate_secure_filename env_ok ''report.pdf'' =
     generate_secure_filename env_blind ''report.pdf'' \<and>
   generate_secure_filename env_ok ''report.pdf'' \<noteq>
     generate_secure_filename (env_ok\<lparr>entropy := (\<lambda>i. 7)\<rparr>) ''report.pdf''"
proof -
  let ?e = "env_ok\<lparr>entropy := (\<lambda>i. 7)\<rparr>"
  note t = generate_secure_filename_safe_distinct
    [where e = env_ok and ?e1.0 = env_ok and ?e2.0 = env_blind and filename = "''report.pdf''"]
  note t' = generate_secure_filename_safe_distinct
    [where e = env_ok and ?e1.0 = env_ok and ?e2.0 = ?e and filename = "''report.pdf''"]
  have f: "unicode_fold env_ok = unicode_fold env_blind"
    by (simp add: env_ok_def env_blind_def)
  have f': "unicode_fold env_ok = unicode_fold ?e" by simp
  have s: "strftime (now env_ok) = strftime (now env_blind)" by code_simp
  have b: "token_bytes env_ok 8 = token_bytes env_blind 8" by code_simp
  have b': "token_bytes env_ok 8 \<noteq> token_bytes ?e 8" by code_simp
  from t [THEN conjunct2, THEN conjunct1]
  have "list_all safe_char (generate_secure_filename env_ok ''report.pdf'')"
    by (simp add: list_all_iff)
  moreover from t [THEN conjunct2, THEN conjunct2, THEN mp, OF f] s b
  have "generate_secure_filename env_ok ''report.pdf'' =
      generate_secure_filename env_blind ''report.pdf''" by simp
  moreover from t' [THEN conjunct2, THEN conjunct2, THEN mp, OF f'] b'
  have "generate_secure_filename env_ok ''report.pdf'' \<noteq>
      generate_secure_filename ?e ''report.pdf''" by simp
  ultimately show ?thesis by blast
qed

theorem same_second_same_token_same_name:
  "microsecond (now env_ok) \<noteq> microsecond (now env_again) \<and>
   generate_secure_filename env_ok ''report.pdf'' = ''report_20240309_140507_031425364758697a.pdf'' \<and>
   generate_secure_filename env_again ''report.pdf'' = ''report_20240309_140507_031425364758697a.pdf''"
proof -
  have "microsecond (now env_ok) \<noteq> microsecond (now env_again)"
    by (simp add: env_ok_def env_again_def clock0_def)
  moreover have first: "generate_secure_filename env_ok ''report.pdf'' =
      ''report_20240309_140507_031425364758697a.pdf''" by code_simp
  moreover have "generate_secure_filename env_again ''report.pdf'' =
      ''report_20240309_140507_031425364758697a.pdf''"
    unfolding second_call_same_name by (rule first)
  ultimately show ?thesis by blast
qed

subsection \<open>PathGuard\<close>

text \<open>
  C1. \<^verbatim>\<open>is_path_safe\<close> should return true exactly when the canonical absolute form of the
  candidate is the root or a descendant of the root. It compares the two canonical forms
  with \<^verbatim>\<open>startswith\<close>, so a sibling directory whose name continues the root's name passes:
  the candidate below contains a \<open>..\<close> segment, resolves to a path outside the root, and
  is accepted.
\<close>

theorem is_path_safe_accepts_sibling:
  "abspath env_ok ''/srv/app/uploads'' = Inr ''/srv/app/uploads'' \<and>
   abspath env_ok ''/srv/app/uploads/../uploads_evil/x.txt'' = Inr ''/srv/app/uploads_evil/x.txt'' \<and>
   \<not> spec_path_within ''/srv/app/uploads_evil/x.txt'' ''/srv/app/uploads'' \<and>
   is_path_safe env_ok ''/srv/app/uploads/../uploads_evil/x.txt'' ''/srv/app/uploads''"
  by code_simp

end
